theory Spec2Isabelle
  imports Main
begin

section \<open>The webhook route of the WhatsApp bot (src/app/api/message/route.js)\<close>

text \<open>
  The route keeps two module-level variables (\<open>conversationHistory\<close> and
  \<open>processedMessages\<close>), reads two constants fixed at module load (\<open>PHONE_NUMBER\<close> and
  \<open>serverStartTime\<close>) and talks to three collaborators (the completion API, the speech
  synthesiser and the chat gateway). The embedding passes the two variables as an explicit
  state, the constants as an environment, and the outcome of every collaborator call as a
  function argument; a JavaScript exception is a value \<open>Inl e\<close> of a sum type.

  Text is a \<open>char list\<close>, each \<open>char\<close> read as a code unit below 256. On these the
  character functions below are those of JavaScript: \<open>toLowerCase\<close> maps A-Z and the
  capital letters U+00C0 to U+00DE (but not the multiplication sign U+00D7) to the letter
  32 places further on, and the white space of \<open>\s\<close> and \<open>trim\<close> is tab, line feed,
  vertical tab, form feed, carriage return, space and the no-break space U+00A0. Code
  units from 256 on are outside the model.
\<close>

subsection \<open>Characters and strings\<close>

definition code_of :: "char \<Rightarrow> nat" where
  "code_of c = of_char c"

definition is_space :: "char \<Rightarrow> bool" where
  "is_space c = (code_of c = 32 \<or> (9 \<le> code_of c \<and> code_of c \<le> 13) \<or> code_of c = 160)"

definition is_word_char :: "char \<Rightarrow> bool" where
  "is_word_char c =
     ((48 \<le> code_of c \<and> code_of c \<le> 57) \<or> (65 \<le> code_of c \<and> code_of c \<le> 90)
      \<or> code_of c = 95 \<or> (97 \<le> code_of c \<and> code_of c \<le> 122))"

definition lower_char :: "char \<Rightarrow> char" where
  "lower_char c =
     (if (65 \<le> code_of c \<and> code_of c \<le> 90)
         \<or> (192 \<le> code_of c \<and> code_of c \<le> 222 \<and> code_of c \<noteq> 215)
      then char_of (code_of c + 32) else c)"

definition toLowerCase :: "string \<Rightarrow> string" where
  "toLowerCase s = map lower_char s"

definition starts_with :: "string \<Rightarrow> string \<Rightarrow> bool" where
  "starts_with s k = (take (length k) s = k)"

text \<open>\<open>String.prototype.includes\<close>: the key occurs at some position of the text.\<close>

fun str_includes :: "string \<Rightarrow> string \<Rightarrow> bool" where
  "str_includes [] k = (k = [])"
| "str_includes (c # cs) k = (starts_with (c # cs) k \<or> str_includes cs k)"

definition trim :: "string \<Rightarrow> string" where
  "trim s = rev (dropWhile is_space (rev (dropWhile is_space s)))"

subsection \<open>Regular expressions of the cleaning step\<close>

text \<open>
  The five patterns of lines 273-277 use literals under the \<open>i\<close> flag, \<open>\s+\<close>, optional
  groups, alternation and \<open>\b\<close>. The literals are ASCII, and under the \<open>i\<close> flag an
  ASCII letter matches its two cases and nothing else; the word characters of \<open>\b\<close> are
  the ASCII letters, the digits and the underscore. A position is the character before the cursor (if any)
  and the text after it. \<open>rx_match\<close> lists the positions where a match of the pattern
  can end, in the order in which a backtracking matcher tries them: a greedy \<open>\s+\<close>
  longest first, an optional group taken before skipped, the left alternative before the
  right one. The head of the list is the match that JavaScript reports.
\<close>

datatype regex =
    Lit string
  | Spaces
  | Seq regex regex
  | Alt regex regex
  | Opt regex
  | WordBoundary

type_synonym position = "char option \<times> string"

definition word_before :: "char option \<Rightarrow> bool" where
  "word_before p = (case p of None \<Rightarrow> False | Some c \<Rightarrow> is_word_char c)"

definition word_after :: "string \<Rightarrow> bool" where
  "word_after s = (case s of [] \<Rightarrow> False | c # _ \<Rightarrow> is_word_char c)"

definition advance :: "nat \<Rightarrow> position \<Rightarrow> position" where
  "advance n pos =
     (if n = 0 then pos
      else (Some (last (take n (snd pos))), drop n (snd pos)))"

fun rx_match :: "regex \<Rightarrow> position \<Rightarrow> position list" where
  "rx_match (Lit l) pos =
     (if length l \<le> length (snd pos)
         \<and> toLowerCase (take (length l) (snd pos)) = toLowerCase l
      then [advance (length l) pos] else [])"
| "rx_match Spaces pos =
     map (\<lambda>n. advance n pos) (rev [1 ..< Suc (length (takeWhile is_space (snd pos)))])"
| "rx_match (Seq a b) pos = concat (map (rx_match b) (rx_match a pos))"
| "rx_match (Alt a b) pos = rx_match a pos @ rx_match b pos"
| "rx_match (Opt a) pos = rx_match a pos @ [pos]"
| "rx_match WordBoundary pos =
     (if word_before (fst pos) \<noteq> word_after (snd pos) then [pos] else [])"

text \<open>
  \<open>text.replace(/r/g, repl)\<close>: scan from the left; where the pattern matches, emit the
  replacement and go on after the match, otherwise copy one character. After a match
  that consumes nothing the scan copies the next character and moves on, as the engine's
  advance of \<open>lastIndex\<close> does. (None of the five patterns has such a match.)
\<close>

function replace_all :: "regex \<Rightarrow> string \<Rightarrow> position \<Rightarrow> string" where
  "replace_all r repl (p, []) = (if rx_match r (p, []) = [] then [] else repl)"
| "replace_all r repl (p, c # cs) =
     (case rx_match r (p, c # cs) of
        [] \<Rightarrow> c # replace_all r repl (Some c, cs)
      | m # _ \<Rightarrow>
          if length (snd m) < length (c # cs)
          then repl @ replace_all r repl (fst m, snd m)
          else repl @ c # replace_all r repl (Some c, cs))"
  by pat_completeness auto
termination
  by (relation "measure (\<lambda>(r, repl, pos). length (snd pos))") auto

definition replace :: "regex \<Rightarrow> string \<Rightarrow> string \<Rightarrow> string" where
  "replace r repl s = replace_all r repl (None, s)"

text \<open>\<open>/send\s+(me\s+)?(a\s+)?(voice|audio)/gi\<close>\<close>

definition rx_send :: regex where
  "rx_send =
     Seq (Lit ''send'') (Seq Spaces
       (Seq (Opt (Seq (Lit ''me'') Spaces))
         (Seq (Opt (Seq (Lit ''a'') Spaces))
           (Alt (Lit ''voice'') (Lit ''audio'')))))"

text \<open>\<open>/(as\s+)?(voice\s+note|voice\s+message)/gi\<close>\<close>

definition rx_note :: regex where
  "rx_note =
     Seq (Opt (Seq (Lit ''as'') Spaces))
       (Alt (Seq (Lit ''voice'') (Seq Spaces (Lit ''note'')))
            (Seq (Lit ''voice'') (Seq Spaces (Lit ''message''))))"

text \<open>\<open>/\b(speak|say\s+it)\b/gi\<close>\<close>

definition rx_speak :: regex where
  "rx_speak =
     Seq WordBoundary
       (Seq (Alt (Lit ''speak'') (Seq (Lit ''say'') (Seq Spaces (Lit ''it''))))
         WordBoundary)"

text \<open>\<open>/\bvoice\b/gi\<close>\<close>

definition rx_voice :: regex where
  "rx_voice = Seq WordBoundary (Seq (Lit ''voice'') WordBoundary)"

subsection \<open>Intent classifier (lines 202-218 and 270-285)\<close>

definition voiceKeywords :: "string list" where
  "voiceKeywords =
     [''voice note'', ''voice message'', ''send voice'', ''send audio'', ''as voice'',
      ''in voice'', '' voice '', ''speak it'', ''say it'', '' audio '', ''voice clip'']"

definition wantsVoiceResponse :: "string \<Rightarrow> bool" where
  "wantsVoiceResponse message =
     (let lowerMsg = toLowerCase message
      in list_ex (\<lambda>keyword. str_includes lowerMsg keyword) voiceKeywords)"

text \<open>Lines 272-278: the chain of five replacements and the trim.\<close>

definition aggressive_strip :: "string \<Rightarrow> string" where
  "aggressive_strip userMessage =
     trim (replace Spaces '' ''
       (replace rx_voice ''''
         (replace rx_speak ''''
           (replace rx_note ''''
             (replace rx_send '''' userMessage)))))"

text \<open>Lines 281-283: the single replacement used when the result is too short.\<close>

definition loose_strip :: "string \<Rightarrow> string" where
  "loose_strip userMessage = trim (replace rx_send '''' userMessage)"

text \<open>Lines 270-285: the prompt that goes to the completion API.\<close>

definition cleanMessage :: "string \<Rightarrow> string" where
  "cleanMessage userMessage =
     (if wantsVoiceResponse userMessage
      then (if length (aggressive_strip userMessage) < 5
            then loose_strip userMessage
            else aggressive_strip userMessage)
      else userMessage)"

subsection \<open>Conversation history (lines 27 and 32-42)\<close>

record turn =
  role :: string
  message :: string

text \<open>\<open>xs.slice(-n)\<close>: the last \<open>n\<close> elements, all of them when there are fewer.\<close>

definition slice_last :: "nat \<Rightarrow> 'a list \<Rightarrow> 'a list" where
  "slice_last n xs = drop (length xs - n) xs"

definition saveToHistory :: "string \<Rightarrow> string \<Rightarrow> turn list \<Rightarrow> turn list" where
  "saveToHistory r m conversationHistory =
     (let pushed = conversationHistory @ [\<lparr>role = r, message = m\<rparr>]
      in if length pushed > 10 then slice_last 10 pushed else pushed)"

definition loadHistory :: "turn list \<Rightarrow> turn list" where
  "loadHistory conversationHistory = conversationHistory"

text \<open>A run of calls of \<open>saveToHistory\<close>, one per (role, message) pair, in order.\<close>

fun save_all :: "(string \<times> string) list \<Rightarrow> turn list \<Rightarrow> turn list" where
  "save_all [] h = h"
| "save_all (t # ts) h = save_all ts (saveToHistory (fst t) (snd t) h)"

subsection \<open>JSON values and the JavaScript operations applied to them\<close>

text \<open>
  \<open>request.json()\<close> yields a JSON value. An object is the list of its members in the
  order of the text, looked up by key, the last member winning where a key is repeated;
  \<open>undefined\<close> is \<open>None\<close> of \<open>json option\<close>. Numbers are integers: the timestamps of the
  gateway are whole seconds, and on integers the comparison of line 236 is exact.
\<close>

datatype json =
    JNull
  | JBool bool
  | JNum int
  | JStr string
  | JArr "json list"
  | JObj "(string \<times> json) list"

datatype js_error = SyntaxError | TypeError | RequestFailed

text \<open>Truthiness, as \<open>!x\<close>, \<open>x && y\<close> and \<open>x || y\<close> test it.\<close>

fun truthy :: "json option \<Rightarrow> bool" where
  "truthy None = False"
| "truthy (Some JNull) = False"
| "truthy (Some (JBool b)) = b"
| "truthy (Some (JNum n)) = (n \<noteq> 0)"
| "truthy (Some (JStr s)) = (s \<noteq> [])"
| "truthy (Some (JArr xs)) = True"
| "truthy (Some (JObj kvs)) = True"

definition js_or :: "json option \<Rightarrow> json option \<Rightarrow> json option" where
  "js_or a b = (if truthy a then a else b)"

text \<open>
  \<open>v.k\<close>, for the keys the route reads (\<open>from\<close>, \<open>fromMe\<close>, \<open>timestamp\<close>, \<open>message\<close>,
  \<open>id\<close>, \<open>text\<close>): a TypeError on \<open>null\<close> and \<open>undefined\<close>, the member of an object,
  and \<open>undefined\<close> on a boolean, number, string or array, whose prototypes have none of
  these keys.
\<close>

fun js_get :: "json option \<Rightarrow> string \<Rightarrow> js_error + json option" where
  "js_get None k = Inl TypeError"
| "js_get (Some JNull) k = Inl TypeError"
| "js_get (Some (JObj kvs)) k = Inr (map_of (rev kvs) k)"
| "js_get (Some v) k = Inr None"

text \<open>\<open>v?.k\<close>: \<open>undefined\<close> where \<open>v.k\<close> would throw.\<close>

definition js_get_opt :: "json option \<Rightarrow> string \<Rightarrow> json option" where
  "js_get_opt v k = (case js_get v k of Inl e \<Rightarrow> None | Inr x \<Rightarrow> x)"

text \<open>
  \<open>v.includes(x)\<close> for a truthy \<open>v\<close> and \<open>x\<close> a string or \<open>undefined\<close>: a substring test
  on a string (\<open>undefined\<close> is searched as the text "undefined"), an element test on an
  array (no JSON array holds \<open>undefined\<close>), and a TypeError on every other value, which
  has no callable \<open>includes\<close>.
\<close>

fun js_includes :: "json \<Rightarrow> string option \<Rightarrow> js_error + bool" where
  "js_includes (JStr s) None = Inr (str_includes s ''undefined'')"
| "js_includes (JStr s) (Some x) = Inr (str_includes s x)"
| "js_includes (JArr xs) None = Inr False"
| "js_includes (JArr xs) (Some x) = Inr (JStr x \<in> set xs)"
| "js_includes v x = Inl TypeError"

text \<open>
  The elements of a \<open>Set\<close> are compared by SameValueZero: strings, numbers, booleans and
  \<open>null\<close> by value, arrays and objects by identity. Each parsed body holds fresh arrays
  and objects, so one of them is never found in the set. The set is the list of its
  elements in insertion order, which is the order of \<open>values()\<close>.
\<close>

fun is_primitive :: "json \<Rightarrow> bool" where
  "is_primitive (JArr xs) = False"
| "is_primitive (JObj kvs) = False"
| "is_primitive v = True"

definition set_has :: "json list \<Rightarrow> json \<Rightarrow> bool" where
  "set_has ids v = (is_primitive v \<and> v \<in> set ids)"

definition set_add :: "json list \<Rightarrow> json \<Rightarrow> json list" where
  "set_add ids v = (if set_has ids v then ids else ids @ [v])"

text \<open>\<open>s.delete(s.values().next().value)\<close>: the element inserted first leaves.\<close>

definition delete_first :: "json list \<Rightarrow> json list" where
  "delete_first ids = (case ids of [] \<Rightarrow> [] | firstId # rest \<Rightarrow> rest)"

subsection \<open>Module constants and module state\<close>

text \<open>
  \<open>PHONE_NUMBER\<close> is \<open>process.env.PHONE_NUMBER\<close>, a string or \<open>undefined\<close>;
  \<open>serverStartTime\<close> is \<open>Date.now()\<close> at module load, in milliseconds. \<open>ToNumber\<close> is
  the runtime's conversion of a string, array or object to a number, with \<open>None\<close> for
  NaN; the route applies it only to a timestamp that is none of number, boolean or
  \<open>null\<close>, and it is left as a parameter.
\<close>

record env =
  PHONE_NUMBER :: "string option"
  serverStartTime :: int
  ToNumber :: "json \<Rightarrow> js_error + int option"

record state =
  conversationHistory :: "turn list"
  processedMessages :: "json list"

definition initial_state :: state where
  "initial_state = \<lparr>conversationHistory = [], processedMessages = []\<rparr>"

subsection \<open>Message gate (lines 224-260)\<close>

datatype decision = Proceed json | Reject string

text \<open>Line 225: \<open>!body.from || !body.from.includes(PHONE_NUMBER)\<close>.\<close>

definition not_from_target :: "env \<Rightarrow> json \<Rightarrow> js_error + bool" where
  "not_from_target e body =
     (case js_get (Some body) ''from'' of
        Inl err \<Rightarrow> Inl err
      | Inr sender \<Rightarrow>
          (case sender of
             None \<Rightarrow> Inr True
           | Some v \<Rightarrow>
               if \<not> truthy (Some v) then Inr True
               else (case js_includes v (PHONE_NUMBER e) of
                       Inl err \<Rightarrow> Inl err
                     | Inr found \<Rightarrow> Inr (\<not> found))))"

text \<open>Line 235: \<open>body.timestamp || body.message?.timestamp\<close>.\<close>

definition messageTimestamp :: "json \<Rightarrow> json option" where
  "messageTimestamp body =
     js_or (js_get_opt (Some body) ''timestamp'')
           (js_get_opt (js_get_opt (Some body) ''message'') ''timestamp'')"

text \<open>Line 236: \<open>messageTimestamp && messageTimestamp * 1000 < serverStartTime\<close>.\<close>

fun to_number :: "env \<Rightarrow> json \<Rightarrow> js_error + int option" where
  "to_number e (JNum n) = Inr (Some n)"
| "to_number e (JBool b) = Inr (Some (if b then 1 else 0))"
| "to_number e JNull = Inr (Some 0)"
| "to_number e v = ToNumber e v"

definition is_old :: "env \<Rightarrow> json option \<Rightarrow> js_error + bool" where
  "is_old e ts =
     (case ts of
        None \<Rightarrow> Inr False
      | Some v \<Rightarrow>
          if \<not> truthy (Some v) then Inr False
          else (case to_number e v of
                  Inl err \<Rightarrow> Inl err
                | Inr None \<Rightarrow> Inr False
                | Inr (Some n) \<Rightarrow> Inr (n * 1000 < serverStartTime e)))"

text \<open>Line 241: \<open>body.message?.text\<close>.\<close>

definition message_text :: "json \<Rightarrow> json option" where
  "message_text body = js_get_opt (js_get_opt (Some body) ''message'') ''text''"

text \<open>Line 246: \<open>body.id || body.message?.id\<close>.\<close>

definition messageId :: "json \<Rightarrow> json option" where
  "messageId body =
     js_or (js_get_opt (Some body) ''id'')
           (js_get_opt (js_get_opt (Some body) ''message'') ''id'')"

text \<open>
  Lines 224-243, the four checks that do not look at the set of seen ids: a rejection
  with its status tag, \<open>Proceed\<close> with \<open>body.message.text\<close> when all four pass, or the
  exception thrown on the way. Once line 225 has read \<open>body.from\<close> the body is neither
  \<open>null\<close> nor \<open>undefined\<close>, so the later reads of its members cannot throw and are
  written with \<open>js_get_opt\<close> (lemma \<open>later_reads_total\<close>).
\<close>

definition gate_checks :: "env \<Rightarrow> json \<Rightarrow> js_error + decision" where
  "gate_checks e body =
     (case not_from_target e body of
        Inl err \<Rightarrow> Inl err
      | Inr True \<Rightarrow> Inr (Reject ''ignored'')
      | Inr False \<Rightarrow>
          if js_get_opt (Some body) ''fromMe'' = Some (JBool True)
          then Inr (Reject ''ignored_self'')
          else (case is_old e (messageTimestamp body) of
                  Inl err \<Rightarrow> Inl err
                | Inr True \<Rightarrow> Inr (Reject ''ignored_old'')
                | Inr False \<Rightarrow>
                    (case message_text body of
                       None \<Rightarrow> Inr (Reject ''ignored_no_text'')
                     | Some t \<Rightarrow>
                         if \<not> truthy (Some t) then Inr (Reject ''ignored_no_text'')
                         else Inr (Proceed t))))"

text \<open>Lines 253-260: record the id, then drop the oldest one when there are more than 100.\<close>

definition remember :: "json list \<Rightarrow> json \<Rightarrow> json list" where
  "remember ids v =
     (let added = set_add ids v
      in if length added > 100 then delete_first added else added)"

text \<open>Lines 245-260: the duplicate check and the update of the set, for the id read at line 246.\<close>

definition dedup :: "state \<Rightarrow> json option \<Rightarrow> json \<Rightarrow> decision \<times> state" where
  "dedup st mid t =
     (case mid of
        None \<Rightarrow> (Proceed t, st)
      | Some v \<Rightarrow>
          if \<not> truthy (Some v) then (Proceed t, st)
          else if set_has (processedMessages st) v then (Reject ''ignored_duplicate'', st)
          else (Proceed t, st\<lparr>processedMessages := remember (processedMessages st) v\<rparr>))"

text \<open>
  Lines 224-260 as one function of the state: the decision and the state after it.
  Every exception of these lines is thrown before the set is touched.
\<close>

definition admit :: "env \<Rightarrow> state \<Rightarrow> json \<Rightarrow> js_error + decision \<times> state" where
  "admit e st body =
     (case gate_checks e body of
        Inl err \<Rightarrow> Inl err
      | Inr (Reject tag) \<Rightarrow> Inr (Reject tag, st)
      | Inr (Proceed t) \<Rightarrow> Inr (dedup st (messageId body) t))"

text \<open>A run of calls of the gate, one per body; a call that throws leaves the state as it was.\<close>

fun admit_all :: "env \<Rightarrow> json list \<Rightarrow> state \<Rightarrow> state" where
  "admit_all e [] st = st"
| "admit_all e (body # bodies) st =
     admit_all e bodies (case admit e st body of Inl err \<Rightarrow> st | Inr r \<Rightarrow> snd r)"

subsection \<open>Collaborators (lines 45-199)\<close>

text \<open>
  What the outside world answers during one request. \<open>completion\<close> is the POST to the
  completion API with the history and the prompt: it throws, or yields the text of the
  first candidate, \<open>None\<close> when the answer has none. \<open>synthesize\<close> is the body of
  \<open>textToSpeech\<close> after the truncation: the path of a non-empty audio file, or \<open>None\<close>
  when the script failed or left no file. \<open>send_file\<close> and \<open>send_message\<close> are the two
  calls to the chat gateway, which return or throw.
\<close>

record collab =
  completion :: "turn list \<Rightarrow> string \<Rightarrow> js_error + string option"
  synthesize :: "string \<Rightarrow> string option"
  send_file :: "string \<Rightarrow> string \<Rightarrow> js_error + unit"
  send_message :: "string \<Rightarrow> string \<Rightarrow> js_error + unit"

text \<open>Lines 45-108: both failures of the completion call are replaced by fixed texts.\<close>

definition generateLLMResponse :: "collab \<Rightarrow> turn list \<Rightarrow> string \<Rightarrow> string" where
  "generateLLMResponse c history prompt =
     (case completion c history prompt of
        Inl err \<Rightarrow> ''Sorry, I am having trouble responding right now. Please try again.''
      | Inr None \<Rightarrow> ''Sorry, I could not generate a response.''
      | Inr (Some t) \<Rightarrow>
          if t \<noteq> [] then t else ''Sorry, I could not generate a response.'')"

text \<open>Lines 125-170: every failure of the synthesis is \<open>null\<close>.\<close>

definition textToSpeech :: "collab \<Rightarrow> string \<Rightarrow> string option" where
  "textToSpeech c t = synthesize c (take 1500 t)"

text \<open>Lines 173-199: the failure is logged and thrown again.\<close>

definition sendVoiceNote :: "collab \<Rightarrow> string \<Rightarrow> string \<Rightarrow> js_error + unit" where
  "sendVoiceNote c audioPath phone =
     (case send_file c audioPath phone of Inl err \<Rightarrow> Inl err | Inr u \<Rightarrow> Inr u)"

text \<open>Lines 110-122.\<close>

definition sendWhatsAppMessage :: "collab \<Rightarrow> string \<Rightarrow> string \<Rightarrow> js_error + unit" where
  "sendWhatsAppMessage c m phone = send_message c m phone"

subsection \<open>The handler (lines 220-323)\<close>

record response =
  http_status :: nat
  status :: string
  error_message :: "js_error option"

datatype request = Unparsable | Json json

text \<open>\<open>NextResponse.json({ status: tag }, { status: 200 })\<close>\<close>

definition json_response :: "string \<Rightarrow> response" where
  "json_response tag = \<lparr>http_status = 200, status = tag, error_message = None\<rparr>"

text \<open>The \<open>catch\<close> block of lines 316-322.\<close>

definition error_response :: "js_error \<Rightarrow> response" where
  "error_response err = \<lparr>http_status = 200, status = ''error'', error_message = Some err\<rparr>"

text \<open>The template literal \<open>${PHONE_NUMBER}@s.whatsapp.net\<close>.\<close>

definition recipient :: "env \<Rightarrow> string" where
  "recipient e =
     (case PHONE_NUMBER e of None \<Rightarrow> ''undefined'' | Some p \<Rightarrow> p) @ ''@s.whatsapp.net''"

text \<open>Lines 297-313: voice when asked for and synthesised, text otherwise.\<close>

definition deliver :: "env \<Rightarrow> collab \<Rightarrow> bool \<Rightarrow> string \<Rightarrow> js_error + unit" where
  "deliver e c sendAsVoice reply =
     (if sendAsVoice
      then (case textToSpeech c reply of
              Some filePath \<Rightarrow> sendVoiceNote c filePath (recipient e)
            | None \<Rightarrow> sendWhatsAppMessage c reply (recipient e))
      else sendWhatsAppMessage c reply (recipient e))"

text \<open>
  Lines 262-315 for an admitted text. \<open>toLowerCase\<close> exists on strings only, so a text
  of any other JSON type throws at line 266. The history is updated before the delivery
  and stays updated when the delivery throws.
\<close>

definition reply_pipeline ::
  "env \<Rightarrow> collab \<Rightarrow> state \<Rightarrow> json \<Rightarrow> (js_error + unit) \<times> state" where
  "reply_pipeline e c st t =
     (case t of
        JStr userMessage \<Rightarrow>
          (let sendAsVoice = wantsVoiceResponse userMessage;
               prompt = cleanMessage userMessage;
               h1 = saveToHistory ''user'' prompt (conversationHistory st);
               reply = generateLLMResponse c (loadHistory h1) prompt;
               h2 = saveToHistory ''model'' reply h1
           in (deliver e c sendAsVoice reply, st\<lparr>conversationHistory := h2\<rparr>))
      | _ \<Rightarrow> (Inl TypeError, st))"

definition POST :: "env \<Rightarrow> collab \<Rightarrow> state \<Rightarrow> request \<Rightarrow> response \<times> state" where
  "POST e c st req =
     (case req of
        Unparsable \<Rightarrow> (error_response SyntaxError, st)
      | Json body \<Rightarrow>
          (case admit e st body of
             Inl err \<Rightarrow> (error_response err, st)
           | Inr (Reject tag, st1) \<Rightarrow> (json_response tag, st1)
           | Inr (Proceed t, st1) \<Rightarrow>
               (case reply_pipeline e c st1 t of
                  (Inl err, st2) \<Rightarrow> (error_response err, st2)
                | (Inr u, st2) \<Rightarrow> (json_response ''success'', st2))))"

subsection \<open>Vocabulary of the properties\<close>

text \<open>The turn that \<open>saveToHistory\<close> pushes for a (role, message) pair.\<close>

definition as_turn :: "string \<times> string \<Rightarrow> turn" where
  "as_turn t = \<lparr>role = fst t, message = snd t\<rparr>"

text \<open>An event is valid up to its id when the four checks of lines 224-243 let it pass.\<close>

definition passes_checks :: "env \<Rightarrow> json \<Rightarrow> bool" where
  "passes_checks e body =
     (case gate_checks e body of Inr (Proceed t) \<Rightarrow> True | _ \<Rightarrow> False)"

text \<open>The status tags of the webhook contract.\<close>

definition status_tags :: "string set" where
  "status_tags =
     {''ignored'', ''ignored_self'', ''ignored_old'', ''ignored_no_text'',
      ''ignored_duplicate'', ''success'', ''error''}"

text \<open>Lines 287-291: the reply obtained for an admitted text, given the history before it.\<close>

definition reply_to :: "collab \<Rightarrow> turn list \<Rightarrow> string \<Rightarrow> string" where
  "reply_to c h userMessage =
     generateLLMResponse c
       (loadHistory (saveToHistory ''user'' (cleanMessage userMessage) h))
       (cleanMessage userMessage)"

subsection \<open>Concrete events and collaborators\<close>

definition example_env :: env where
  "example_env =
     \<lparr>PHONE_NUMBER = Some ''15551234567'', serverStartTime = 1700000000000,
      ToNumber = (\<lambda>v. Inr None)\<rparr>"

text \<open>
  A webhook body with the members the route reads. The timestamps of the example events
  are numbers, so \<open>ToNumber\<close> is never applied to them (lemma \<open>event_ignores_ToNumber\<close>)
  and its value in \<open>example_env\<close> plays no part.
\<close>

definition event :: "string \<Rightarrow> int \<Rightarrow> json \<Rightarrow> string \<Rightarrow> json" where
  "event sender ts mid t =
     JObj [(''from'', JStr sender), (''fromMe'', JBool False), (''timestamp'', JNum ts),
           (''id'', mid), (''message'', JObj [(''text'', JStr t)])]"

definition event_without_id :: "string \<Rightarrow> int \<Rightarrow> string \<Rightarrow> json" where
  "event_without_id sender ts t =
     JObj [(''from'', JStr sender), (''fromMe'', JBool False), (''timestamp'', JNum ts),
           (''message'', JObj [(''text'', JStr t)])]"

definition target_jid :: string where
  "target_jid = ''15551234567@s.whatsapp.net''"

definition gateway_up :: collab where
  "gateway_up =
     \<lparr>completion = (\<lambda>h p. Inr (Some ''Osmosis moves water across a membrane.'')),
      synthesize = (\<lambda>t. Some ''public/audio/voice_1.wav''),
      send_file = (\<lambda>f p. Inr ()),
      send_message = (\<lambda>m p. Inr ())\<rparr>"

text \<open>The gateway refuses files and accepts text messages.\<close>

definition voice_gateway_down :: collab where
  "voice_gateway_down =
     \<lparr>completion = (\<lambda>h p. Inr (Some ''Gravity pulls masses together.'')),
      synthesize = (\<lambda>t. Some ''public/audio/voice_1.wav''),
      send_file = (\<lambda>f p. Inl RequestFailed),
      send_message = (\<lambda>m p. Inr ())\<rparr>"

definition gateway_down :: collab where
  "gateway_down =
     \<lparr>completion = (\<lambda>h p. Inr (Some ''Osmosis moves water across a membrane.'')),
      synthesize = (\<lambda>t. Some ''public/audio/voice_1.wav''),
      send_file = (\<lambda>f p. Inl RequestFailed),
      send_message = (\<lambda>m p. Inl RequestFailed)\<rparr>"

text \<open>Events sent by the target that differ in their numeric id only, and a run of user turns.\<close>

definition numbered_ids :: "nat \<Rightarrow> json list" where
  "numbered_ids n = map (\<lambda>k. JNum (int k)) [1 ..< Suc n]"

definition numbered_events :: "nat \<Rightarrow> json list" where
  "numbered_events n =
     map (\<lambda>v. event target_jid 1700000100 v ''explain osmosis'') (numbered_ids n)"

definition numbered_turns :: "nat \<Rightarrow> (string \<times> string) list" where
  "numbered_turns n = map (\<lambda>k. (''user'', replicate k CHR ''a'')) [1 ..< Suc n]"

section \<open>Properties\<close>

subsection \<open>Bounded containers\<close>

lemma slice_last_absorb:
  "slice_last n (slice_last n xs @ ys) = slice_last n (xs @ ys)"
proof (cases "length xs \<le> n")
  case True
  then show ?thesis by (simp add: slice_last_def)
next
  case False
  then have "length xs - n + n = length xs" by simp
  then have "length xs + length ys - n = (length xs - n) + length ys" by arith
  then show ?thesis using False by (simp add: slice_last_def add.commute)
qed

lemma saveToHistory_slice:
  "saveToHistory r m h = slice_last 10 (h @ [\<lparr>role = r, message = m\<rparr>])"
  by (simp add: saveToHistory_def slice_last_def Let_def)

lemma save_all_slice:
  "ts \<noteq> [] \<Longrightarrow> save_all ts h = slice_last 10 (h @ map as_turn ts)"
proof (induction ts arbitrary: h)
  case Nil
  then show ?case by simp
next
  case (Cons t ts)
  show ?case
  proof (cases ts)
    case Nil
    then show ?thesis by (simp add: saveToHistory_slice as_turn_def)
  next
    case (Cons t' ts')
    then have "save_all (t # ts) h = slice_last 10 (saveToHistory (fst t) (snd t) h @ map as_turn ts)"
      using Cons.IH by simp
    also have "\<dots> = slice_last 10 (slice_last 10 (h @ [as_turn t]) @ map as_turn ts)"
      by (simp add: saveToHistory_slice as_turn_def)
    also have "\<dots> = slice_last 10 ((h @ [as_turn t]) @ map as_turn ts)"
      by (rule slice_last_absorb)
    finally show ?thesis by simp
  qed
qed

lemma remember_fresh:
  assumes "\<not> set_has ids v" and "length ids \<le> 100"
  shows "remember ids v = drop (Suc (length ids) - 100) (ids @ [v])"
proof (cases "length ids = 100")
  case True
  then obtain a rest where "ids = a # rest" by (cases ids) auto
  with True assms show ?thesis
    by (simp add: remember_def set_add_def delete_first_def)
next
  case False
  with assms have "length ids < 100" by simp
  with assms show ?thesis
    by (simp add: remember_def set_add_def)
qed


lemma length_remember: "length ids \<le> 100 \<Longrightarrow> length (remember ids v) \<le> 100"
  by (cases ids) (auto simp: remember_def set_add_def delete_first_def Let_def)

lemma processed_dedup:
  "processedMessages (snd (dedup st mid t)) =
     (case mid of None \<Rightarrow> processedMessages st
      | Some v \<Rightarrow> if truthy (Some v) \<and> \<not> set_has (processedMessages st) v
                  then remember (processedMessages st) v else processedMessages st)"
  by (simp add: dedup_def split: option.splits)

lemma admit_bound:
  "length (processedMessages st) \<le> 100 \<Longrightarrow> admit e st body = Inr r \<Longrightarrow>
     length (processedMessages (snd r)) \<le> 100"
  by (auto simp: admit_def processed_dedup length_remember
           split: sum.splits decision.splits option.splits)

lemma admit_all_bound:
  "length (processedMessages st) \<le> 100 \<Longrightarrow>
     length (processedMessages (admit_all e bodies st)) \<le> 100"
proof (induction bodies arbitrary: st)
  case Nil
  then show ?case by simp
next
  case (Cons b bs)
  then show ?case by (cases "admit e st b") (auto dest: admit_bound)
qed

lemma admit_fresh:
  assumes "passes_checks e body" and "messageId body = Some v" and "truthy (Some v)"
    and "v \<notin> set (processedMessages st)"
  shows "admit e st body =
           Inr (case gate_checks e body of Inr d \<Rightarrow> d,
                st\<lparr>processedMessages := remember (processedMessages st) v\<rparr>)"
  using assms
  by (auto simp: passes_checks_def admit_def dedup_def set_has_def
           split: sum.splits decision.splits)

lemma admit_all_fifo:
  assumes "\<forall>b\<in>set bodies. passes_checks e b"
    and "map messageId bodies = map Some ids"
    and "\<forall>v\<in>set ids. truthy (Some v)"
    and "distinct (processedMessages st @ ids)"
    and "length (processedMessages st) \<le> 100"
  shows "processedMessages (admit_all e bodies st) =
           slice_last 100 (processedMessages st @ ids)"
  using assms
proof (induction bodies arbitrary: st ids)
  case Nil
  then show ?case by (simp add: slice_last_def)
next
  case (Cons b bs)
  from Cons.prems(2) obtain v vs where ids: "ids = v # vs"
    and mid: "messageId b = Some v" and rest: "map messageId bs = map Some vs"
    by (cases ids) auto
  let ?seen = "processedMessages st"
  let ?st1 = "st\<lparr>processedMessages := remember ?seen v\<rparr>"
  have fresh: "v \<notin> set ?seen" using Cons.prems(4) ids by auto
  have step: "admit e st b = Inr (case gate_checks e b of Inr d \<Rightarrow> d, ?st1)"
    using admit_fresh [of e b v st] Cons.prems(1,3) mid fresh ids by simp
  have rem: "remember ?seen v = slice_last 100 (?seen @ [v])"
    using remember_fresh [of ?seen v] fresh Cons.prems(5)
    by (simp add: set_has_def slice_last_def)
  have sub: "set (slice_last 100 (?seen @ [v])) \<subseteq> set (?seen @ [v])"
    unfolding slice_last_def by (rule set_drop_subset)
  have dist: "distinct (processedMessages ?st1 @ vs)"
  proof -
    have "distinct (slice_last 100 (?seen @ [v]))"
      unfolding slice_last_def using Cons.prems(4) ids by (intro distinct_drop) simp
    moreover have "distinct vs" using Cons.prems(4) ids by simp
    moreover have "set (?seen @ [v]) \<inter> set vs = {}" using Cons.prems(4) ids by auto
    ultimately show ?thesis using sub rem by auto
  qed
  have len: "length (processedMessages ?st1) \<le> 100"
    using length_remember [OF Cons.prems(5)] by simp
  have "processedMessages (admit_all e (b # bs) st) = processedMessages (admit_all e bs ?st1)"
    using step by simp
  also have "\<dots> = slice_last 100 (processedMessages ?st1 @ vs)"
    using Cons.IH [of vs ?st1] Cons.prems(1,3) rest dist len ids by simp
  also have "\<dots> = slice_last 100 (slice_last 100 (?seen @ [v]) @ vs)"
    using rem by simp
  also have "\<dots> = slice_last 100 ((?seen @ [v]) @ vs)"
    by (rule slice_last_absorb)
  finally show ?case using ids by simp
qed

text \<open>
  Claim C6. The conversation window never holds more than 10 turns after a call of
  \<open>saveToHistory\<close>, whatever the history was before, and after 15 turns have been
  appended in order, \<open>loadHistory\<close> returns exactly the last 10 of them, oldest first.
\<close>

theorem history_window_bound:
  "length (saveToHistory r m h) \<le> 10 \<and>
   (length ts = 15 \<longrightarrow> loadHistory (save_all ts h) = map as_turn (drop 5 ts))"
proof (intro conjI impI)
  show "length (saveToHistory r m h) \<le> 10"
    by (simp add: saveToHistory_slice slice_last_def)
next
  assume len: "length ts = 15"
  then have "ts \<noteq> []" by auto
  then have "save_all ts h = slice_last 10 (h @ map as_turn ts)"
    by (rule save_all_slice)
  also have "\<dots> = map as_turn (drop 5 ts)"
    using len by (simp add: slice_last_def drop_map)
  finally show "loadHistory (save_all ts h) = map as_turn (drop 5 ts)"
    by (simp add: loadHistory_def)
qed

theorem history_window_bound_witness:
  "length (saveToHistory ''user'' ''hello'' []) \<le> 10 \<and>
   length (numbered_turns 15) = 15 \<and>
   loadHistory (save_all (numbered_turns 15) []) = map as_turn (drop 5 (numbered_turns 15))"
proof -
  have len: "length (numbered_turns 15) = 15"
    by (simp add: numbered_turns_def)
  note main = history_window_bound [of "''user''" "''hello''" "[]" "numbered_turns 15"]
  from main have "length (saveToHistory ''user'' ''hello'' []) \<le> 10" by (rule conjunct1)
  moreover from main len
  have "loadHistory (save_all (numbered_turns 15) []) = map as_turn (drop 5 (numbered_turns 15))"
    by (rule conjunct2 [THEN mp])
  ultimately show ?thesis using len by blast
qed

subsection \<open>The example events\<close>

lemma passes_checks_event:
  "t \<noteq> [] \<Longrightarrow> passes_checks example_env (event target_jid 1700000100 v t)"
  by (simp add: passes_checks_def gate_checks_def not_from_target_def event_def target_jid_def
      example_env_def js_get_opt_def messageTimestamp_def js_or_def is_old_def message_text_def
      starts_with_def)

lemma messageId_event:
  "truthy (Some v) \<Longrightarrow> messageId (event sender ts v t) = Some v"
  by (simp add: messageId_def event_def js_or_def js_get_opt_def)

text \<open>
  Claim C4. Starting from the empty set of the module, \<open>processedMessages\<close> never holds
  more than 100 ids after any run of calls of the gate. Eviction is first in, first out:
  after 105 events with pairwise distinct ids have been admitted, the set holds exactly
  the last 100 ids, in insertion order, and none of the first 5.
\<close>

theorem seen_ids_bound_fifo:
  "length (processedMessages (admit_all e bodies initial_state)) \<le> 100 \<and>
   ((\<forall>b\<in>set bodies. passes_checks e b) \<and> map messageId bodies = map Some ids \<and>
    (\<forall>v\<in>set ids. truthy (Some v)) \<and> distinct ids \<and> length ids = 105
    \<longrightarrow> processedMessages (admit_all e bodies initial_state) = drop 5 ids \<and>
        length (processedMessages (admit_all e bodies initial_state)) = 100 \<and>
        set (take 5 ids) \<inter> set (processedMessages (admit_all e bodies initial_state)) = {})"
proof (intro conjI impI)
  show "length (processedMessages (admit_all e bodies initial_state)) \<le> 100"
    by (rule admit_all_bound) (simp add: initial_state_def)
next
  assume h: "(\<forall>b\<in>set bodies. passes_checks e b) \<and> map messageId bodies = map Some ids \<and>
    (\<forall>v\<in>set ids. truthy (Some v)) \<and> distinct ids \<and> length ids = 105"
  then have "processedMessages (admit_all e bodies initial_state)
               = slice_last 100 (processedMessages initial_state @ ids)"
    by (intro admit_all_fifo) (simp_all add: initial_state_def)
  with h have eq: "processedMessages (admit_all e bodies initial_state) = drop 5 ids"
    by (simp add: slice_last_def initial_state_def)
  show "processedMessages (admit_all e bodies initial_state) = drop 5 ids" by (rule eq)
  show "length (processedMessages (admit_all e bodies initial_state)) = 100"
    using h eq by simp
  have "distinct (take 5 ids @ drop 5 ids)" using h by simp
  then show "set (take 5 ids) \<inter> set (processedMessages (admit_all e bodies initial_state)) = {}"
    unfolding eq by (simp only: distinct_append)
qed

theorem seen_ids_bound_fifo_witness:
  "length (processedMessages (admit_all example_env (numbered_events 105) initial_state)) \<le> 100 \<and>
   processedMessages (admit_all example_env (numbered_events 105) initial_state)
     = drop 5 (numbered_ids 105) \<and>
   set (take 5 (numbered_ids 105))
     \<inter> set (processedMessages (admit_all example_env (numbered_events 105) initial_state)) = {}"
proof -
  have h1: "\<forall>b\<in>set (numbered_events 105). passes_checks example_env b"
    by (auto simp: numbered_events_def passes_checks_event)
  have h3: "\<forall>v\<in>set (numbered_ids 105). truthy (Some v)"
    by (auto simp: numbered_ids_def)
  have h2: "map messageId (numbered_events 105) = map Some (numbered_ids 105)"
    using h3 by (simp add: numbered_events_def messageId_event)
  have h4: "distinct (numbered_ids 105)"
    by (simp add: numbered_ids_def distinct_map inj_on_def)
  have h5: "length (numbered_ids 105) = 105"
    by (simp add: numbered_ids_def)
  note main = seen_ids_bound_fifo [of example_env "numbered_events 105" "numbered_ids 105"]
  from main h1 h2 h3 h4 h5 show ?thesis by blast
qed

subsection \<open>Message gate\<close>

text \<open>
  Once \<open>body.from\<close> has been read without a TypeError, every later read of a member of
  the body is total.
\<close>

lemma later_reads_total:
  "not_from_target e body = Inr b \<Longrightarrow> js_get (Some body) k = Inr (js_get_opt (Some body) k)"
  by (cases body) (auto simp: not_from_target_def js_get_opt_def)

lemma not_from_target_other:
  assumes "PHONE_NUMBER e = Some p" and "js_get (Some body) ''from'' = Inr (Some (JStr s))"
    and "\<not> str_includes s p"
  shows "not_from_target e body = Inr True"
  using assms by (simp add: not_from_target_def)

text \<open>
  Claim C1, as the code has it. The sender is matched by \<open>includes\<close>, not by equality:
  an event whose sender is a string that does not contain the configured target
  identifier is rejected with status \<open>ignored\<close>, whatever its other members are, and the
  state is left as it was.
\<close>

theorem other_sender_ignored:
  assumes "PHONE_NUMBER e = Some p"
    and "js_get (Some body) ''from'' = Inr (Some (JStr s))"
    and "\<not> str_includes s p"
  shows "admit e st body = Inr (Reject ''ignored'', st) \<and>
         POST e c st (Json body) = (json_response ''ignored'', st)"
proof -
  have "gate_checks e body = Inr (Reject ''ignored'')"
    using not_from_target_other [OF assms] by (simp add: gate_checks_def)
  then have "admit e st body = Inr (Reject ''ignored'', st)"
    by (simp add: admit_def)
  then show ?thesis by (simp add: POST_def)
qed

text \<open>
  Claim C2, as the code has it. The timestamp of an event is \<open>body.timestamp\<close> when that
  is truthy and \<open>body.message?.timestamp\<close> otherwise, in seconds. An event that passes the
  sender and self-echo checks and whose timestamp is a number other than 0 with
  \<open>timestamp * 1000 < serverStartTime\<close> is rejected with status \<open>ignored_old\<close>.
\<close>

theorem old_event_ignored:
  assumes "not_from_target e body = Inr False"
    and "js_get_opt (Some body) ''fromMe'' \<noteq> Some (JBool True)"
    and "messageTimestamp body = Some (JNum n)"
    and "n \<noteq> 0"
    and "n * 1000 < serverStartTime e"
  shows "admit e st body = Inr (Reject ''ignored_old'', st)"
proof -
  have "is_old e (messageTimestamp body) = Inr True"
    using assms(3,4,5) by (simp add: is_old_def)
  then have "gate_checks e body = Inr (Reject ''ignored_old'')"
    using assms(1,2) by (simp add: gate_checks_def)
  then show ?thesis by (simp add: admit_def)
qed

lemma remember_keeps_new: "\<not> set_has ids v \<Longrightarrow> v \<in> set (remember ids v)"
proof (cases ids)
  case Nil
  then show ?thesis by (simp add: remember_def set_add_def set_has_def)
next
  case (Cons a rest)
  assume "\<not> set_has ids v"
  with Cons show ?thesis by (simp add: remember_def set_add_def delete_first_def Let_def)
qed

text \<open>
  Claim C5. Two events that pass the four checks and carry the same id (a string, number
  or boolean, compared by value) that the set does not hold yet: the first call of the
  gate proceeds and records the id, the second call, made in the state the first one
  left, is rejected with status \<open>ignored_duplicate\<close> and changes nothing.
\<close>

theorem second_admit_duplicate:
  assumes "gate_checks e b1 = Inr (Proceed t1)"
    and "gate_checks e b2 = Inr (Proceed t2)"
    and "messageId b1 = Some v" and "messageId b2 = Some v"
    and "truthy (Some v)" and "is_primitive v"
    and "\<not> set_has (processedMessages st) v"
  shows "admit e st b1
           = Inr (Proceed t1, st\<lparr>processedMessages := remember (processedMessages st) v\<rparr>) \<and>
         admit e (st\<lparr>processedMessages := remember (processedMessages st) v\<rparr>) b2
           = Inr (Reject ''ignored_duplicate'',
                  st\<lparr>processedMessages := remember (processedMessages st) v\<rparr>)"
proof
  show "admit e st b1
          = Inr (Proceed t1, st\<lparr>processedMessages := remember (processedMessages st) v\<rparr>)"
    using assms(1,3,5,7) by (simp add: admit_def dedup_def)
next
  have "set_has (remember (processedMessages st) v) v"
    using remember_keeps_new [OF assms(7)] assms(6) by (simp add: set_has_def)
  then show "admit e (st\<lparr>processedMessages := remember (processedMessages st) v\<rparr>) b2
          = Inr (Reject ''ignored_duplicate'',
                 st\<lparr>processedMessages := remember (processedMessages st) v\<rparr>)"
    using assms(2,4,5) by (simp add: admit_def dedup_def)
qed

lemma admit_without_id:
  assumes "gate_checks e body = Inr (Proceed t)" and "\<not> truthy (messageId body)"
  shows "admit e st body = Inr (Proceed t, st)"
  using assms by (cases "messageId body") (simp_all add: admit_def dedup_def)

text \<open>
  Claim C10. An event that passes the four checks and carries no id (\<open>body.id\<close> and
  \<open>body.message.id\<close> both absent or falsy) proceeds whatever \<open>processedMessages\<close> holds
  and leaves the state as it was; so the same delivery proceeds again after the handler
  has processed it once.
\<close>

theorem missing_id_skips_dedup:
  assumes "gate_checks e body = Inr (Proceed t)" and "\<not> truthy (messageId body)"
  shows "admit e st body = Inr (Proceed t, st) \<and>
         admit e (snd (POST e c st (Json body))) body
           = Inr (Proceed t, snd (POST e c st (Json body)))"
  using admit_without_id [OF assms] by simp

subsection \<open>The handler\<close>

lemma reply_pipeline_text:
  "reply_pipeline e c st (JStr u) =
     (deliver e c (wantsVoiceResponse u) (reply_to c (conversationHistory st) u),
      st\<lparr>conversationHistory :=
            saveToHistory ''model'' (reply_to c (conversationHistory st) u)
              (saveToHistory ''user'' (cleanMessage u) (conversationHistory st))\<rparr>)"
  by (simp add: reply_pipeline_def reply_to_def Let_def)

lemma gate_checks_tags:
  "gate_checks e body = Inr (Reject tag) \<Longrightarrow> tag \<in> status_tags"
  by (auto simp: gate_checks_def status_tags_def split: sum.splits bool.splits if_splits option.splits)

lemma dedup_tags: "dedup st mid t = (Reject tag, st1) \<Longrightarrow> tag \<in> status_tags"
  by (auto simp: dedup_def status_tags_def split: option.splits if_splits)

lemma admit_tags: "admit e st body = Inr (Reject tag, st1) \<Longrightarrow> tag \<in> status_tags"
  by (auto simp: admit_def split: sum.splits decision.splits dest: gate_checks_tags dedup_tags)

text \<open>
  Claim C9. Whatever the request (an unparsable body, any JSON value), the state and the
  answers of the collaborators, the handler returns HTTP status 200 with a status tag
  among \<open>ignored\<close>, \<open>ignored_self\<close>, \<open>ignored_old\<close>, \<open>ignored_no_text\<close>,
  \<open>ignored_duplicate\<close>, \<open>success\<close> and \<open>error\<close>: every exception of the body is caught.
\<close>

theorem POST_always_acknowledges:
  "http_status (fst (POST e c st req)) = 200 \<and> status (fst (POST e c st req)) \<in> status_tags"
proof (cases req)
  case Unparsable
  then show ?thesis by (simp add: POST_def error_response_def status_tags_def)
next
  case (Json body)
  show ?thesis
  proof (cases "admit e st body")
    case (Inl err)
    with Json show ?thesis by (simp add: POST_def error_response_def status_tags_def)
  next
    case (Inr r)
    obtain d st1 where r: "r = (d, st1)" by (cases r)
    show ?thesis
    proof (cases d)
      case (Reject tag)
      with Inr r have "tag \<in> status_tags" using admit_tags by blast
      with Json Inr r Reject show ?thesis by (simp add: POST_def json_response_def)
    next
      case (Proceed t)
      obtain out st2 where p: "reply_pipeline e c st1 t = (out, st2)"
        by (cases "reply_pipeline e c st1 t")
      with Json Inr r Proceed show ?thesis
        by (cases out) (simp_all add: POST_def json_response_def error_response_def status_tags_def)
    qed
  qed
qed

subsection \<open>The claims at concrete events\<close>

lemma gate_checks_event:
  "t \<noteq> [] \<Longrightarrow> n \<noteq> 0 \<Longrightarrow> 1700000000000 \<le> n * 1000 \<Longrightarrow>
     gate_checks example_env (event target_jid n v t) = Inr (Proceed (JStr t))"
  by (simp add: gate_checks_def not_from_target_def event_def target_jid_def
      example_env_def js_get_opt_def messageTimestamp_def js_or_def is_old_def message_text_def
      starts_with_def)

theorem other_sender_ignored_witness:
  "admit example_env initial_state
     (event ''15550000000@s.whatsapp.net'' 1700000100 (JStr ''m1'') ''explain osmosis'')
     = Inr (Reject ''ignored'', initial_state) \<and>
   POST example_env gateway_up initial_state
     (Json (event ''15550000000@s.whatsapp.net'' 1700000100 (JStr ''m1'') ''explain osmosis''))
     = (json_response ''ignored'', initial_state)"
proof -
  have h1: "PHONE_NUMBER example_env = Some ''15551234567''"
    by (simp add: example_env_def)
  have h2: "js_get (Some (event ''15550000000@s.whatsapp.net'' 1700000100 (JStr ''m1'')
              ''explain osmosis'')) ''from'' = Inr (Some (JStr ''15550000000@s.whatsapp.net''))"
    by (simp add: event_def)
  have h3: "\<not> str_includes ''15550000000@s.whatsapp.net'' ''15551234567''"
    by (simp add: starts_with_def)
  show ?thesis by (rule other_sender_ignored [OF h1 h2 h3])
qed

text \<open>
  Claim C1 as stated fails: the sender \<open>15551234567@s.whatsapp.net\<close> is not equal to the
  configured target \<open>15551234567\<close>, and the event is admitted, not rejected.
\<close>

theorem sender_with_suffix_admitted:
  "JStr ''15551234567@s.whatsapp.net'' \<noteq> JStr ''15551234567'' \<and>
   PHONE_NUMBER example_env = Some ''15551234567'' \<and>
   js_get (Some (event ''15551234567@s.whatsapp.net'' 1700000100 (JStr ''m1'') ''explain osmosis''))
     ''from'' = Inr (Some (JStr ''15551234567@s.whatsapp.net'')) \<and>
   admit example_env initial_state
     (event ''15551234567@s.whatsapp.net'' 1700000100 (JStr ''m1'') ''explain osmosis'')
     = Inr (Proceed (JStr ''explain osmosis''),
            \<lparr>conversationHistory = [], processedMessages = [JStr ''m1'']\<rparr>) \<and>
   admit example_env initial_state
     (event ''15551234567@s.whatsapp.net'' 1700000100 (JStr ''m1'') ''explain osmosis'')
     \<noteq> Inr (Reject ''ignored'', initial_state)"
proof -
  have g: "gate_checks example_env
             (event ''15551234567@s.whatsapp.net'' 1700000100 (JStr ''m1'') ''explain osmosis'')
           = Inr (Proceed (JStr ''explain osmosis''))"
    using gate_checks_event [of "''explain osmosis''" 1700000100 "JStr ''m1''"]
    by (simp add: target_jid_def)
  have m: "messageId (event ''15551234567@s.whatsapp.net'' 1700000100 (JStr ''m1'')
             ''explain osmosis'') = Some (JStr ''m1'')"
    by (simp add: messageId_event)
  have a: "admit example_env initial_state
             (event ''15551234567@s.whatsapp.net'' 1700000100 (JStr ''m1'') ''explain osmosis'')
           = Inr (Proceed (JStr ''explain osmosis''),
                  \<lparr>conversationHistory = [], processedMessages = [JStr ''m1'']\<rparr>)"
    by (simp add: admit_def g m dedup_def initial_state_def set_has_def remember_def
        set_add_def)
  have p: "PHONE_NUMBER example_env = Some ''15551234567''"
    by (simp add: example_env_def)
  have f: "js_get (Some (event ''15551234567@s.whatsapp.net'' 1700000100 (JStr ''m1'')
             ''explain osmosis'')) ''from'' = Inr (Some (JStr ''15551234567@s.whatsapp.net''))"
    by (simp add: event_def)
  show ?thesis unfolding a using p f by simp
qed

theorem old_event_ignored_witness:
  "admit example_env initial_state (event target_jid 1600000000 (JStr ''m1'') ''explain osmosis'')
     = Inr (Reject ''ignored_old'', initial_state)"
proof -
  have h1: "not_from_target example_env
              (event target_jid 1600000000 (JStr ''m1'') ''explain osmosis'') = Inr False"
    by (simp add: not_from_target_def event_def target_jid_def example_env_def starts_with_def)
  have h2: "js_get_opt (Some (event target_jid 1600000000 (JStr ''m1'') ''explain osmosis''))
              ''fromMe'' \<noteq> Some (JBool True)"
    by (simp add: js_get_opt_def event_def)
  have h3: "messageTimestamp (event target_jid 1600000000 (JStr ''m1'') ''explain osmosis'')
              = Some (JNum 1600000000)"
    by (simp add: messageTimestamp_def js_or_def js_get_opt_def event_def)
  have h4: "(1600000000::int) \<noteq> 0" by simp
  have h5: "1600000000 * 1000 < serverStartTime example_env"
    by (simp add: example_env_def)
  show ?thesis by (rule old_event_ignored [OF h1 h2 h3 h4 h5])
qed

text \<open>
  Claim C2 as stated fails: an event from the target with \<open>timestamp: 0\<close>, which lies
  before the start of the server, passes line 236 because 0 is falsy, and is admitted.
\<close>

theorem zero_timestamp_admitted:
  "js_get_opt (Some (event ''15551234567@s.whatsapp.net'' 0 (JStr ''m1'') ''explain osmosis''))
     ''timestamp'' = Some (JNum 0) \<and>
   0 * 1000 < serverStartTime example_env \<and>
   not_from_target example_env
     (event ''15551234567@s.whatsapp.net'' 0 (JStr ''m1'') ''explain osmosis'') = Inr False \<and>
   js_get_opt (Some (event ''15551234567@s.whatsapp.net'' 0 (JStr ''m1'') ''explain osmosis''))
     ''fromMe'' = Some (JBool False) \<and>
   admit example_env initial_state
     (event ''15551234567@s.whatsapp.net'' 0 (JStr ''m1'') ''explain osmosis'')
     = Inr (Proceed (JStr ''explain osmosis''),
            \<lparr>conversationHistory = [], processedMessages = [JStr ''m1'']\<rparr>) \<and>
   admit example_env initial_state
     (event ''15551234567@s.whatsapp.net'' 0 (JStr ''m1'') ''explain osmosis'')
     \<noteq> Inr (Reject ''ignored_old'', initial_state)"
proof -
  have n: "not_from_target example_env
             (event ''15551234567@s.whatsapp.net'' 0 (JStr ''m1'') ''explain osmosis'')
           = Inr False"
    by (simp add: not_from_target_def event_def example_env_def starts_with_def)
  have f: "js_get_opt (Some (event ''15551234567@s.whatsapp.net'' 0 (JStr ''m1'')
             ''explain osmosis'')) ''fromMe'' = Some (JBool False)"
    by (simp add: js_get_opt_def event_def)
  have t0: "js_get_opt (Some (event ''15551234567@s.whatsapp.net'' 0 (JStr ''m1'')
              ''explain osmosis'')) ''timestamp'' = Some (JNum 0)"
    by (simp add: js_get_opt_def event_def)
  have t: "messageTimestamp (event ''15551234567@s.whatsapp.net'' 0 (JStr ''m1'')
             ''explain osmosis'') = None"
    by (simp add: messageTimestamp_def js_or_def js_get_opt_def event_def)
  have x: "message_text (event ''15551234567@s.whatsapp.net'' 0 (JStr ''m1'')
             ''explain osmosis'') = Some (JStr ''explain osmosis'')"
    by (simp add: message_text_def js_get_opt_def event_def)
  have g: "gate_checks example_env
             (event ''15551234567@s.whatsapp.net'' 0 (JStr ''m1'') ''explain osmosis'')
           = Inr (Proceed (JStr ''explain osmosis''))"
    by (simp add: gate_checks_def n f t x is_old_def)
  have m: "messageId (event ''15551234567@s.whatsapp.net'' 0 (JStr ''m1'') ''explain osmosis'')
           = Some (JStr ''m1'')"
    by (simp add: messageId_event)
  have a: "admit example_env initial_state
             (event ''15551234567@s.whatsapp.net'' 0 (JStr ''m1'') ''explain osmosis'')
           = Inr (Proceed (JStr ''explain osmosis''),
                  \<lparr>conversationHistory = [], processedMessages = [JStr ''m1'']\<rparr>)"
    by (simp add: admit_def g m dedup_def initial_state_def set_has_def remember_def
        set_add_def)
  have s: "0 * 1000 < serverStartTime example_env"
    by (simp add: example_env_def)
  show ?thesis unfolding a using n f t0 s by simp
qed

theorem second_admit_duplicate_witness:
  "admit example_env initial_state (event target_jid 1700000100 (JStr ''m1'') ''explain osmosis'')
     = Inr (Proceed (JStr ''explain osmosis''),
            initial_state\<lparr>processedMessages :=
              remember (processedMessages initial_state) (JStr ''m1'')\<rparr>) \<and>
   admit example_env
     (initial_state\<lparr>processedMessages :=
        remember (processedMessages initial_state) (JStr ''m1'')\<rparr>)
     (event target_jid 1700000200 (JStr ''m1'') ''explain osmosis again'')
     = Inr (Reject ''ignored_duplicate'',
            initial_state\<lparr>processedMessages :=
              remember (processedMessages initial_state) (JStr ''m1'')\<rparr>)"
proof -
  have h1: "gate_checks example_env
              (event target_jid 1700000100 (JStr ''m1'') ''explain osmosis'')
            = Inr (Proceed (JStr ''explain osmosis''))"
    by (rule gate_checks_event) simp_all
  have h2: "gate_checks example_env
              (event target_jid 1700000200 (JStr ''m1'') ''explain osmosis again'')
            = Inr (Proceed (JStr ''explain osmosis again''))"
    by (rule gate_checks_event) simp_all
  have h3: "messageId (event target_jid 1700000100 (JStr ''m1'') ''explain osmosis'')
            = Some (JStr ''m1'')"
    by (simp add: messageId_event)
  have h4: "messageId (event target_jid 1700000200 (JStr ''m1'') ''explain osmosis again'')
            = Some (JStr ''m1'')"
    by (simp add: messageId_event)
  have h5: "truthy (Some (JStr ''m1''))" by simp
  have h6: "is_primitive (JStr ''m1'')" by simp
  have h7: "\<not> set_has (processedMessages initial_state) (JStr ''m1'')"
    by (simp add: set_has_def initial_state_def)
  show ?thesis by (rule second_admit_duplicate [OF h1 h2 h3 h4 h5 h6 h7])
qed

lemma gate_checks_event_without_id:
  "t \<noteq> [] \<Longrightarrow> n \<noteq> 0 \<Longrightarrow> 1700000000000 \<le> n * 1000 \<Longrightarrow>
     gate_checks example_env (event_without_id target_jid n t) = Inr (Proceed (JStr t))"
  by (simp add: gate_checks_def not_from_target_def event_without_id_def target_jid_def
      example_env_def js_get_opt_def messageTimestamp_def js_or_def is_old_def message_text_def
      starts_with_def)

theorem missing_id_skips_dedup_witness:
  "admit example_env initial_state (event_without_id target_jid 1700000100 ''explain osmosis'')
     = Inr (Proceed (JStr ''explain osmosis''), initial_state) \<and>
   admit example_env
     (snd (POST example_env gateway_up initial_state
            (Json (event_without_id target_jid 1700000100 ''explain osmosis''))))
     (event_without_id target_jid 1700000100 ''explain osmosis'')
     = Inr (Proceed (JStr ''explain osmosis''),
            snd (POST example_env gateway_up initial_state
                  (Json (event_without_id target_jid 1700000100 ''explain osmosis''))))"
proof -
  have h1: "gate_checks example_env (event_without_id target_jid 1700000100 ''explain osmosis'')
            = Inr (Proceed (JStr ''explain osmosis''))"
    by (rule gate_checks_event_without_id) simp_all
  have h2: "\<not> truthy (messageId (event_without_id target_jid 1700000100 ''explain osmosis''))"
    by (simp add: messageId_def js_or_def js_get_opt_def event_without_id_def)
  show ?thesis by (rule missing_id_skips_dedup [OF h1 h2])
qed

subsection \<open>Delivery failures and the webhook answer at concrete events\<close>

lemma delivered_reports_success:
  assumes "admit e st body = Inr (Proceed (JStr u), st1)"
    and "deliver e c (wantsVoiceResponse u) (reply_to c (conversationHistory st1) u) = Inr ()"
  shows "fst (POST e c st (Json body)) = json_response ''success''"
  using assms by (simp add: POST_def reply_pipeline_text)

lemma deliver_gateway_down: "deliver e gateway_down b r = Inl RequestFailed"
  by (simp add: deliver_def gateway_down_def textToSpeech_def sendVoiceNote_def
      sendWhatsAppMessage_def)

lemma admit_first_event:
  "t \<noteq> [] \<Longrightarrow> admit example_env initial_state (event target_jid 1700000100 (JStr ''m1'') t)
     = Inr (Proceed (JStr t), \<lparr>conversationHistory = [], processedMessages = [JStr ''m1'']\<rparr>)"
  by (simp add: admit_def gate_checks_event messageId_event dedup_def initial_state_def
      set_has_def remember_def set_add_def)

text \<open>
  Claim C3 as stated fails: the event is admitted, the text send throws, and the handler
  answers with status \<open>error\<close>, not \<open>success\<close>.
\<close>

theorem failed_text_delivery_is_not_success:
  "admit example_env initial_state
     (event ''15551234567@s.whatsapp.net'' 1700000100 (JStr ''m1'') ''explain osmosis'')
     = Inr (Proceed (JStr ''explain osmosis''),
            \<lparr>conversationHistory = [], processedMessages = [JStr ''m1'']\<rparr>) \<and>
   send_message gateway_down ''Osmosis moves water across a membrane.''
     ''15551234567@s.whatsapp.net'' = Inl RequestFailed \<and>
   status (fst (POST example_env gateway_down initial_state
     (Json (event ''15551234567@s.whatsapp.net'' 1700000100 (JStr ''m1'') ''explain osmosis''))))
     = ''error'' \<and>
   status (fst (POST example_env gateway_down initial_state
     (Json (event ''15551234567@s.whatsapp.net'' 1700000100 (JStr ''m1'') ''explain osmosis''))))
     \<noteq> ''success''"
proof -
  have a: "admit example_env initial_state
             (event ''15551234567@s.whatsapp.net'' 1700000100 (JStr ''m1'') ''explain osmosis'')
           = Inr (Proceed (JStr ''explain osmosis''),
                  \<lparr>conversationHistory = [], processedMessages = [JStr ''m1'']\<rparr>)"
    using admit_first_event [of "''explain osmosis''"] by (simp add: target_jid_def)
  have s: "send_message gateway_down ''Osmosis moves water across a membrane.''
             ''15551234567@s.whatsapp.net'' = Inl RequestFailed"
    by (simp add: gateway_down_def)
  have p: "status (fst (POST example_env gateway_down initial_state
             (Json (event ''15551234567@s.whatsapp.net'' 1700000100 (JStr ''m1'')
                ''explain osmosis'')))) = ''error''"
    by (simp add: POST_def a reply_pipeline_text deliver_gateway_down error_response_def)
  show ?thesis unfolding p using a s by simp
qed

theorem POST_always_acknowledges_witness:
  "http_status (fst (POST example_env gateway_down initial_state Unparsable)) = 200 \<and>
   status (fst (POST example_env gateway_down initial_state Unparsable)) \<in> status_tags"
  by (rule POST_always_acknowledges)

subsection \<open>Intent classifier\<close>

lemma wants_voice_gravity:
  "wantsVoiceResponse ''send me a voice note explaining gravity''"
  by code_simp

lemma aggressive_strip_gravity:
  "aggressive_strip ''send me a voice note explaining gravity'' = ''note explaining gravity''"
  by code_simp

text \<open>
  Claim C7. For the text "send me a voice note explaining gravity" the classifier asks
  for a voice reply, and the cleaned text is "note explaining gravity": it contains
  "explaining gravity" and neither "voice" nor "send".
\<close>

theorem classify_voice_note_gravity:
  "wantsVoiceResponse ''send me a voice note explaining gravity'' \<and>
   cleanMessage ''send me a voice note explaining gravity'' = ''note explaining gravity'' \<and>
   str_includes (cleanMessage ''send me a voice note explaining gravity'') ''explaining gravity'' \<and>
   \<not> str_includes (cleanMessage ''send me a voice note explaining gravity'') ''voice'' \<and>
   \<not> str_includes (cleanMessage ''send me a voice note explaining gravity'') ''send''"
proof -
  have c: "cleanMessage ''send me a voice note explaining gravity'' = ''note explaining gravity''"
    by (simp add: cleanMessage_def wants_voice_gravity aggressive_strip_gravity)
  have i1: "str_includes ''note explaining gravity'' ''explaining gravity''"
    by (simp add: starts_with_def)
  have i2: "\<not> str_includes ''note explaining gravity'' ''voice''"
    by (simp add: starts_with_def)
  have i3: "\<not> str_includes ''note explaining gravity'' ''send''"
    by (simp add: starts_with_def)
  show ?thesis unfolding c using wants_voice_gravity i1 i2 i3 by simp
qed

lemma wants_voice_hi: "wantsVoiceResponse ''send voice hi''"
  by code_simp

lemma aggressive_strip_hi: "aggressive_strip ''send voice hi'' = ''hi''"
  by code_simp

lemma loose_strip_hi: "loose_strip ''send voice hi'' = ''hi''"
  by code_simp

subsection \<open>The substring test\<close>

lemma starts_with_iff: "starts_with s k \<longleftrightarrow> (\<exists>q. s = k @ q)"
  unfolding starts_with_def
  by (metis append_eq_conv_conj append_take_drop_id)

text \<open>
  \<open>str_includes\<close> is the substring relation.
\<close>

lemma str_includes_iff: "str_includes s k \<longleftrightarrow> (\<exists>p q. s = p @ k @ q)"
proof (induction s)
  case Nil
  then show ?case by simp
next
  case (Cons c cs)
  show ?case
  proof
    assume "str_includes (c # cs) k"
    then consider "starts_with (c # cs) k" | "str_includes cs k" by auto
    then show "\<exists>p q. c # cs = p @ k @ q"
    proof cases
      case 1
      then obtain q where "c # cs = k @ q" using starts_with_iff by blast
      then have "c # cs = [] @ k @ q" by simp
      then show ?thesis by blast
    next
      case 2
      then obtain p q where "cs = p @ k @ q" using Cons.IH by blast
      then have "c # cs = (c # p) @ k @ q" by simp
      then show ?thesis by blast
    qed
  next
    assume "\<exists>p q. c # cs = p @ k @ q"
    then obtain p q where pq: "c # cs = p @ k @ q" by blast
    show "str_includes (c # cs) k"
    proof (cases p)
      case Nil
      with pq have "starts_with (c # cs) k" using starts_with_iff by auto
      then show ?thesis by simp
    next
      case (Cons a p')
      with pq have "cs = p' @ k @ q" by simp
      then have "str_includes cs k" using Cons.IH by blast
      then show ?thesis by simp
    qed
  qed
qed

subsection \<open>The handler and the set of seen ids\<close>

lemma reply_pipeline_keeps_ids:
  "processedMessages (snd (reply_pipeline e c st t)) = processedMessages st"
  by (cases t) (simp_all add: reply_pipeline_def Let_def)

text \<open>
  The handler changes \<open>processedMessages\<close> through lines 253-260 only: a request leaves
  the set as the call of the gate on its body does, so the bound and the order proved for
  runs of the gate hold for runs of the handler.
\<close>

lemma POST_changes_ids_as_admit:
  "processedMessages (snd (POST e c st (Json body))) =
     processedMessages (admit_all e [body] st)"
proof (cases "admit e st body")
  case (Inl err)
  then show ?thesis by (simp add: POST_def)
next
  case (Inr r)
  obtain d st1 where r: "r = (d, st1)" by (cases r)
  show ?thesis
  proof (cases d)
    case (Reject tag)
    with Inr r show ?thesis by (simp add: POST_def)
  next
    case (Proceed t)
    obtain out st2 where p: "reply_pipeline e c st1 t = (out, st2)"
      by (cases "reply_pipeline e c st1 t")
    then have "processedMessages st2 = processedMessages st1"
      using reply_pipeline_keeps_ids [of e c st1 t] by simp
    with Inr r Proceed p show ?thesis by (cases out) (simp_all add: POST_def)
  qed
qed

subsection \<open>Gateway failures and the short-text guard\<close>

lemma messageTimestamp_event:
  "messageTimestamp (event sender n v t) = (if n = 0 then None else Some (JNum n))"
  by (simp add: messageTimestamp_def js_or_def js_get_opt_def event_def)

lemma not_from_target_ignores_ToNumber:
  "not_from_target (e\<lparr>ToNumber := f\<rparr>) body = not_from_target e body"
  by (simp add: not_from_target_def split: sum.splits option.splits)

text \<open>
  The four checks on an example event do not depend on \<open>ToNumber\<close>.
\<close>

lemma event_ignores_ToNumber:
  "gate_checks (e\<lparr>ToNumber := f\<rparr>) (event sender n v t) = gate_checks e (event sender n v t)"
proof -
  have old: "is_old (e\<lparr>ToNumber := f\<rparr>) (messageTimestamp (event sender n v t))
          = is_old e (messageTimestamp (event sender n v t))"
    by (simp add: messageTimestamp_event is_old_def)
  show ?thesis
    unfolding gate_checks_def not_from_target_ignores_ToNumber old ..
qed

lemma deliver_voice:
  "wantsVoiceResponse u \<Longrightarrow> textToSpeech c reply = Some filePath \<Longrightarrow>
     deliver e c (wantsVoiceResponse u) reply = send_file c filePath (recipient e)"
  by (cases "send_file c filePath (recipient e)") (simp_all add: deliver_def sendVoiceNote_def)

lemma deliver_text:
  "\<not> wantsVoiceResponse u \<or> textToSpeech c reply = None \<Longrightarrow>
     deliver e c (wantsVoiceResponse u) reply = send_message c reply (recipient e)"
  by (auto simp: deliver_def sendWhatsAppMessage_def)

text \<open>
  Claim C3, as the code has it. For an admitted text and the reply obtained for it: when
  a voice reply is asked for and synthesised and the file call of the gateway throws, or
  when the text channel is used (no voice asked for, or no audio synthesised) and the
  message call of the gateway throws, the handler answers HTTP 200 with status \<open>error\<close>
  and that error. A voice note that could not be sent is not sent again as text.
\<close>

theorem gateway_throw_reports_error:
  assumes "admit e st body = Inr (Proceed (JStr u), st1)"
    and "reply = reply_to c (conversationHistory st1) u"
    and "(wantsVoiceResponse u \<and> textToSpeech c reply = Some filePath \<and>
          send_file c filePath (recipient e) = Inl err)
         \<or> ((\<not> wantsVoiceResponse u \<or> textToSpeech c reply = None) \<and>
             send_message c reply (recipient e) = Inl err)"
  shows "fst (POST e c st (Json body)) = error_response err \<and>
         http_status (fst (POST e c st (Json body))) = 200 \<and>
         status (fst (POST e c st (Json body))) = ''error''"
proof -
  have "deliver e c (wantsVoiceResponse u) reply = Inl err"
    using assms(3)
  proof
    assume "wantsVoiceResponse u \<and> textToSpeech c reply = Some filePath \<and>
            send_file c filePath (recipient e) = Inl err"
    then show ?thesis using deliver_voice [of u c reply filePath e] by simp
  next
    assume "(\<not> wantsVoiceResponse u \<or> textToSpeech c reply = None) \<and>
            send_message c reply (recipient e) = Inl err"
    then show ?thesis using deliver_text [of u c reply e] by simp
  qed
  then show ?thesis
    using assms(1,2) by (simp add: POST_def reply_pipeline_text error_response_def)
qed

theorem gateway_throw_reports_error_witness:
  "send_file voice_gateway_down ''public/audio/voice_1.wav'' (recipient example_env)
     = Inl RequestFailed \<and>
   send_message voice_gateway_down ''Gravity pulls masses together.'' (recipient example_env)
     = Inr () \<and>
   fst (POST example_env voice_gateway_down initial_state
         (Json (event target_jid 1700000100 (JStr ''m1'') ''send me a voice note explaining gravity'')))
     = error_response RequestFailed \<and>
   http_status (fst (POST example_env voice_gateway_down initial_state
         (Json (event target_jid 1700000100 (JStr ''m1'') ''send me a voice note explaining gravity''))))
     = 200 \<and>
   status (fst (POST example_env voice_gateway_down initial_state
         (Json (event target_jid 1700000100 (JStr ''m1'') ''send me a voice note explaining gravity''))))
     = ''error''"
proof -
  have h1: "admit example_env initial_state
              (event target_jid 1700000100 (JStr ''m1'') ''send me a voice note explaining gravity'')
            = Inr (Proceed (JStr ''send me a voice note explaining gravity''),
                   \<lparr>conversationHistory = [], processedMessages = [JStr ''m1'']\<rparr>)"
    by (rule admit_first_event) simp
  have h2: "''Gravity pulls masses together.''
              = reply_to voice_gateway_down
                  (conversationHistory \<lparr>conversationHistory = [], processedMessages = [JStr ''m1'']\<rparr>)
                  ''send me a voice note explaining gravity''"
    by (simp add: reply_to_def generateLLMResponse_def voice_gateway_down_def)
  have w: "wantsVoiceResponse ''send me a voice note explaining gravity''"
    by code_simp
  have t: "textToSpeech voice_gateway_down ''Gravity pulls masses together.''
             = Some ''public/audio/voice_1.wav''"
    by (simp add: textToSpeech_def voice_gateway_down_def)
  have f: "send_file voice_gateway_down ''public/audio/voice_1.wav'' (recipient example_env)
             = Inl RequestFailed"
    by (simp add: voice_gateway_down_def)
  have m: "send_message voice_gateway_down ''Gravity pulls masses together.''
             (recipient example_env) = Inr ()"
    by (simp add: voice_gateway_down_def)
  have h3: "(wantsVoiceResponse ''send me a voice note explaining gravity'' \<and>
             textToSpeech voice_gateway_down ''Gravity pulls masses together.''
               = Some ''public/audio/voice_1.wav'' \<and>
             send_file voice_gateway_down ''public/audio/voice_1.wav'' (recipient example_env)
               = Inl RequestFailed)
            \<or> ((\<not> wantsVoiceResponse ''send me a voice note explaining gravity'' \<or>
                 textToSpeech voice_gateway_down ''Gravity pulls masses together.'' = None) \<and>
                send_message voice_gateway_down ''Gravity pulls masses together.''
                  (recipient example_env) = Inl RequestFailed)"
    using w t f by blast
  note main = gateway_throw_reports_error [OF h1 h2 h3]
  from f m main show ?thesis by blast
qed

text \<open>
  Claim C8. Whenever a voice reply is asked for and the chain of five replacements leaves
  fewer than 5 characters, the cleaned text is the result of the single replacement of
  the "send (me) (a) voice/audio" pattern on the original text, trimmed. The text
  "send voice hi" is such a case: the chain leaves "hi", and the cleaned text is "hi".
\<close>

theorem classify_send_voice_hi:
  "(wantsVoiceResponse u \<and> length (aggressive_strip u) < 5 \<longrightarrow> cleanMessage u = loose_strip u) \<and>
   wantsVoiceResponse ''send voice hi'' \<and>
   length (aggressive_strip ''send voice hi'') < 5 \<and>
   cleanMessage ''send voice hi'' = loose_strip ''send voice hi'' \<and>
   loose_strip ''send voice hi'' = ''hi'' \<and>
   cleanMessage ''send voice hi'' = ''hi''"
proof -
  have guard: "wantsVoiceResponse u \<and> length (aggressive_strip u) < 5
                 \<longrightarrow> cleanMessage u = loose_strip u" for u
    by (simp add: cleanMessage_def)
  have short: "length (aggressive_strip ''send voice hi'') < 5"
    by (simp add: aggressive_strip_hi)
  have c: "cleanMessage ''send voice hi'' = loose_strip ''send voice hi''"
    using guard [of "''send voice hi''"] wants_voice_hi short by blast
  show ?thesis using guard [of u] wants_voice_hi short c loose_strip_hi by simp
qed

lemma wants_voice_audio_ab: "wantsVoiceResponse '' send audio a  b ''"
  by code_simp

lemma aggressive_strip_audio_ab: "aggressive_strip '' send audio a  b '' = ''a b''"
  by code_simp

lemma loose_strip_audio_ab: "loose_strip '' send audio a  b '' = ''a  b''"
  by code_simp

text \<open>
  On " send audio a  b " the two results differ: the chain of five replacements gives
  "a b", and the cleaned text is "a  b", the result of the single replacement.
\<close>

theorem classify_send_voice_hi_witness:
  "wantsVoiceResponse '' send audio a  b '' \<and>
   length (aggressive_strip '' send audio a  b '') < 5 \<and>
   aggressive_strip '' send audio a  b '' = ''a b'' \<and>
   loose_strip '' send audio a  b '' = ''a  b'' \<and>
   cleanMessage '' send audio a  b '' = loose_strip '' send audio a  b ''"
proof -
  have short: "length (aggressive_strip '' send audio a  b '') < 5"
    by (simp add: aggressive_strip_audio_ab)
  note main = classify_send_voice_hi [of "'' send audio a  b ''", THEN conjunct1, THEN mp]
  have "cleanMessage '' send audio a  b '' = loose_strip '' send audio a  b ''"
    by (rule main) (rule conjI [OF wants_voice_audio_ab short])
  then show ?thesis
    using wants_voice_audio_ab short aggressive_strip_audio_ab loose_strip_audio_ab by blast
qed

end
